theory Spec2Isabelle
  imports Main
begin

section \<open>JSON values, HTTP requests and responses\<close>

text \<open>
  The script \<^verbatim>\<open>monitor_adoption.py\<close> talks to a remote HTTP API through the
  \<^verbatim>\<open>requests\<close> library. A decoded JSON document is a value of \<open>json\<close>; an
  object is kept as the association list of its members, looked up with \<open>map_of\<close>.
  JSON numbers are integers here: the script never computes with them.
\<close>

datatype json =
    JNull
  | JBool bool
  | JNum int
  | JStr string
  | JArr "json list"
  | JObj "(string \<times> json) list"

text \<open>The Python exceptions that the modelled code can raise.\<close>

datatype error =
    ConnectionError
  | HTTPError
  | JSONDecodeError
  | TypeError
  | AttributeError
  | KeyError

record request =
  url :: string
  headers :: "(string \<times> string) list"
  params :: "(string \<times> int) list"

text \<open>
  Of a response the script reads \<^verbatim>\<open>status_code\<close> and \<^verbatim>\<open>json()\<close>. The field
  \<open>json_body\<close> is the decoded body, \<open>None\<close> when the body is not a JSON document.
\<close>

record response =
  status_code :: int
  json_body :: "json option"

text \<open>
  The remote API answers a request with a response, or \<^verbatim>\<open>requests.get\<close> raises
  because no response was received.
\<close>

type_synonym remote = "request \<Rightarrow> error + response"

text \<open>\<^verbatim>\<open>Response.raise_for_status()\<close>: an \<^verbatim>\<open>HTTPError\<close> for a 4xx or 5xx status.\<close>

definition raise_for_status :: "response \<Rightarrow> error + unit" where
  "raise_for_status resp =
     (if 400 \<le> status_code resp \<and> status_code resp < 600 then Inl HTTPError else Inr ())"

text \<open>\<^verbatim>\<open>Response.json()\<close>.\<close>

definition resp_json :: "response \<Rightarrow> error + json" where
  "resp_json resp = (case json_body resp of None \<Rightarrow> Inl JSONDecodeError | Some v \<Rightarrow> Inr v)"

text \<open>Python's truth value of a decoded document, as tested by \<^verbatim>\<open>if not data\<close>.\<close>

fun truthy :: "json \<Rightarrow> bool" where
  "truthy JNull = False"
| "truthy (JBool b) = b"
| "truthy (JNum n) = (n \<noteq> 0)"
| "truthy (JStr s) = (s \<noteq> [])"
| "truthy (JArr xs) = (xs \<noteq> [])"
| "truthy (JObj kv) = (kv \<noteq> [])"

text \<open>
  The values that \<^verbatim>\<open>for repo in data\<close> runs through: the elements of a list, the
  keys of a dict, the characters of a string; anything else is not iterable.
\<close>

fun iter :: "json \<Rightarrow> error + json list" where
  "iter (JArr xs) = Inr xs"
| "iter (JObj kv) = Inr (map (\<lambda>p. JStr (fst p)) kv)"
| "iter (JStr s) = Inr (map (\<lambda>c. JStr [c]) s)"
| "iter v = Inl TypeError"

section \<open>Configuration\<close>

record config =
  ORG :: string
  TOKEN :: string

definition GITHUB_API :: string where
  "GITHUB_API = ''https://api.github.com''"

definition HEADERS :: "config \<Rightarrow> (string \<times> string) list" where
  "HEADERS cfg =
     [(''Authorization'', ''token '' @ TOKEN cfg),
      (''Accept'', ''application/vnd.github.v3+json'')]"

definition usage_message :: string where
  "usage_message = ''Usage: python3 monitor_adoption.py <ORG_NAME>''"

definition token_message :: string where
  "token_message = ''Error: set GITHUB_TOKEN env var with repo scope''"

text \<open>
  Lines 14 to 24 of the script, run when the module is loaded: the result is the printed
  line and the status of \<^verbatim>\<open>sys.exit\<close>, or the configuration. An empty string is false
  in Python, so an empty argument or an empty variable is taken as a missing one.
\<close>

definition configuration :: "string list \<Rightarrow> (string \<rightharpoonup> string) \<Rightarrow> (string \<times> int) + config" where
  "configuration argv env =
     (case (if length argv > 1 then Some (argv ! 1) else None) of
        None \<Rightarrow> Inl (usage_message, 1)
      | Some org \<Rightarrow>
          if org = [] then Inl (usage_message, 1)
          else (case env ''GITHUB_TOKEN'' of
                  None \<Rightarrow> Inl (token_message, 1)
                | Some token \<Rightarrow>
                    if token = [] then Inl (token_message, 1)
                    else Inr \<lparr>ORG = org, TOKEN = token\<rparr>))"

section \<open>The Enumerator: \<^verbatim>\<open>list_js_repos\<close>\<close>

text \<open>
  The local list \<^verbatim>\<open>repos\<close> and the sequence of requests sent so far are threaded
  through the loops.
\<close>

record state =
  repos :: "json list"
  log :: "request list"

text \<open>How one pass through the body of \<^verbatim>\<open>while True\<close> ends.\<close>

datatype exit = Break | Return | Raise error

datatype control = Next | Exit exit

definition page_request :: "config \<Rightarrow> string \<Rightarrow> int \<Rightarrow> request" where
  "page_request cfg endpoint page =
     \<lparr>url = GITHUB_API @ ''/'' @ endpoint,
      headers = HEADERS cfg,
      params = [(''per_page'', 100), (''page'', page)]\<rparr>"

text \<open>\<^verbatim>\<open>repo.get("language")\<close> on a dict: the member, or \<^verbatim>\<open>None\<close>.\<close>

definition dict_get :: "(string \<times> json) list \<Rightarrow> string \<Rightarrow> json" where
  "dict_get kv k = (case map_of kv k of None \<Rightarrow> JNull | Some v \<Rightarrow> v)"

text \<open>
  Lines 48 to 51, the loop over one page. Only a dict has \<^verbatim>\<open>get\<close>, and
  \<^verbatim>\<open>repo["name"]\<close> raises when the key is absent.
\<close>

fun collect :: "json list \<Rightarrow> json list \<Rightarrow> error + json list" where
  "collect [] acc = Inr acc"
| "collect (repo # data) acc =
     (case repo of
        JObj kv \<Rightarrow>
          (let language = dict_get kv ''language'' in
           if language \<in> set [JStr ''JavaScript'', JStr ''TypeScript'']
           then (case map_of kv ''name'' of
                   None \<Rightarrow> Inl KeyError
                 | Some name \<Rightarrow> collect data (acc @ [name]))
           else collect data acc)
      | _ \<Rightarrow> Inl AttributeError)"

text \<open>Lines 37 to 52, one pass through the body of the \<^verbatim>\<open>while\<close> loop.\<close>

definition iteration :: "config \<Rightarrow> remote \<Rightarrow> string \<Rightarrow> int \<Rightarrow> state \<Rightarrow> control \<times> state" where
  "iteration cfg remote endpoint page s =
     (let req = page_request cfg endpoint page;
          s1 = s\<lparr>log := log s @ [req]\<rparr>
      in case remote req of
           Inl e \<Rightarrow> (Exit (Raise e), s1)
         | Inr resp \<Rightarrow>
             if status_code resp = 404 then (Exit Break, s1)
             else (case raise_for_status resp of
                     Inl e \<Rightarrow> (Exit (Raise e), s1)
                   | Inr _ \<Rightarrow>
                       (case resp_json resp of
                          Inl e \<Rightarrow> (Exit (Raise e), s1)
                        | Inr data \<Rightarrow>
                            if \<not> truthy data then (Exit Return, s1)
                            else (case iter data of
                                    Inl e \<Rightarrow> (Exit (Raise e), s1)
                                  | Inr items \<Rightarrow>
                                      (case collect items (repos s1) of
                                         Inl e \<Rightarrow> (Exit (Raise e), s1)
                                       | Inr acc \<Rightarrow> (Next, s1\<lparr>repos := acc\<rparr>))))))"

text \<open>
  The \<^verbatim>\<open>while True\<close> loop of one endpoint, from a page number on. Nothing bounds the
  number of pages, so the loop is a partial function: \<open>None\<close> is a run that never ends.
\<close>

partial_function (option) while_true ::
  "config \<Rightarrow> remote \<Rightarrow> string \<Rightarrow> int \<Rightarrow> state \<Rightarrow> (exit \<times> state) option" where
  "while_true cfg remote endpoint page s =
     (case iteration cfg remote endpoint page s of
        (Next, s') \<Rightarrow> while_true cfg remote endpoint (page + 1) s'
      | (Exit x, s') \<Rightarrow> Some (x, s'))"

text \<open>
  The \<^verbatim>\<open>for endpoint in (...)\<close> loop: \<^verbatim>\<open>break\<close> goes on with the next endpoint,
  \<^verbatim>\<open>return repos\<close> and an exception leave the function, and the end of the tuple
  reaches the last line, \<^verbatim>\<open>return repos\<close>.
\<close>

fun for_endpoints ::
  "config \<Rightarrow> remote \<Rightarrow> string list \<Rightarrow> state \<Rightarrow> ((error + json list) \<times> request list) option" where
  "for_endpoints cfg remote [] s = Some (Inr (repos s), log s)"
| "for_endpoints cfg remote (endpoint # endpoints) s =
     (case while_true cfg remote endpoint 1 s of
        None \<Rightarrow> None
      | Some (Break, s') \<Rightarrow> for_endpoints cfg remote endpoints s'
      | Some (Return, s') \<Rightarrow> Some (Inr (repos s'), log s')
      | Some (Raise e, s') \<Rightarrow> Some (Inl e, log s'))"

definition org_endpoint :: "string \<Rightarrow> string" where
  "org_endpoint org = ''orgs/'' @ org @ ''/repos''"

definition user_endpoint :: "string \<Rightarrow> string" where
  "user_endpoint org = ''users/'' @ org @ ''/repos''"

text \<open>
  The result is the returned list or the exception, with the requests sent, in order,
  after those of \<open>sent\<close>.
\<close>

definition list_js_repos ::
  "config \<Rightarrow> remote \<Rightarrow> string \<Rightarrow> request list \<Rightarrow> ((error + json list) \<times> request list) option" where
  "list_js_repos cfg remote org sent =
     for_endpoints cfg remote [org_endpoint org, user_endpoint org] \<lparr>repos = [], log = sent\<rparr>"

section \<open>The Checker: \<^verbatim>\<open>check_workflow\<close>\<close>

definition workflow_path :: string where
  "workflow_path = ''.github/workflows/deps-install.yml''"

text \<open>
  The f-string of line 59 formats \<^verbatim>\<open>repo\<close> with Python's built-in \<^verbatim>\<open>str\<close>, which
  is not code of this repository and is the parameter \<open>py_str\<close>. The request has no
  query parameters.
\<close>

definition contents_request :: "(json \<Rightarrow> string) \<Rightarrow> config \<Rightarrow> json \<Rightarrow> request" where
  "contents_request py_str cfg repo =
     \<lparr>url = GITHUB_API @ ''/repos/'' @ ORG cfg @ ''/'' @ py_str repo @ ''/contents/'' @ workflow_path,
      headers = HEADERS cfg,
      params = []\<rparr>"

text \<open>
  Lines 55 to 62. The function reads the global \<^verbatim>\<open>ORG\<close>. It raises only when
  \<^verbatim>\<open>requests.get\<close> does; a response of any status is turned into a truth value.
\<close>

definition check_workflow ::
  "(json \<Rightarrow> string) \<Rightarrow> config \<Rightarrow> remote \<Rightarrow> json \<Rightarrow> request list \<Rightarrow> (error + bool) \<times> request list" where
  "check_workflow py_str cfg remote repo sent =
     (let req = contents_request py_str cfg repo
      in case remote req of
           Inl e \<Rightarrow> (Inl e, sent @ [req])
         | Inr resp \<Rightarrow> (Inr (status_code resp = 200), sent @ [req]))"

section \<open>The script\<close>

text \<open>
  How a run of the script ends: \<^verbatim>\<open>sys.exit\<close> after a printed line, an exception that
  nothing catches, or the list \<^verbatim>\<open>results\<close> handed to the rendering of the report.
  The lines printed per repository and the HTML text (lines 71 to 105) are not part of
  the model.
\<close>

datatype run =
    Exited string int
  | Crashed error
  | Reported "(json \<times> bool) list"

text \<open>Lines 68 to 70, the loop over the names.\<close>

fun check_all ::
  "(json \<Rightarrow> string) \<Rightarrow> config \<Rightarrow> remote \<Rightarrow> json list \<Rightarrow> (json \<times> bool) list \<Rightarrow> request list
     \<Rightarrow> run \<times> request list" where
  "check_all py_str cfg remote [] results sent = (Reported results, sent)"
| "check_all py_str cfg remote (name # names) results sent =
     (case check_workflow py_str cfg remote name sent of
        (Inl e, sent') \<Rightarrow> (Crashed e, sent')
      | (Inr has, sent') \<Rightarrow> check_all py_str cfg remote names (results @ [(name, has)]) sent')"

definition main ::
  "(json \<Rightarrow> string) \<Rightarrow> config \<Rightarrow> remote \<Rightarrow> request list \<Rightarrow> (run \<times> request list) option" where
  "main py_str cfg remote sent =
     (case list_js_repos cfg remote (ORG cfg) sent of
        None \<Rightarrow> None
      | Some (Inl e, sent') \<Rightarrow> Some (Crashed e, sent')
      | Some (Inr names, sent') \<Rightarrow> Some (check_all py_str cfg remote names [] sent'))"

text \<open>
  The script run as a program: the configuration at module level first, then
  \<^verbatim>\<open>main()\<close>. The second component is every request sent during the run.
\<close>

definition script ::
  "(json \<Rightarrow> string) \<Rightarrow> string list \<Rightarrow> (string \<rightharpoonup> string) \<Rightarrow> remote \<Rightarrow> (run \<times> request list) option" where
  "script py_str argv env remote =
     (case configuration argv env of
        Inl (msg, code) \<Rightarrow> Some (Exited msg code, [])
      | Inr cfg \<Rightarrow> main py_str cfg remote [])"

section \<open>What the specification speaks of\<close>

text \<open>
  A repository descriptor is a JSON object with a \<^verbatim>\<open>name\<close> member. Its language
  matches when the \<^verbatim>\<open>language\<close> member is exactly one of the two strings.
\<close>

fun descriptor :: "json \<Rightarrow> bool" where
  "descriptor (JObj kv) = (map_of kv ''name'' \<noteq> None)"
| "descriptor v = False"

fun js_language :: "json \<Rightarrow> bool" where
  "js_language (JObj kv) =
     (map_of kv ''language'' = Some (JStr ''JavaScript'') \<or>
      map_of kv ''language'' = Some (JStr ''TypeScript''))"
| "js_language v = False"

fun name_of :: "json \<Rightarrow> json" where
  "name_of (JObj kv) = dict_get kv ''name''"
| "name_of v = JNull"

definition matching_names :: "json list \<Rightarrow> json list" where
  "matching_names items = map name_of (filter js_language items)"

text \<open>
  \<open>serves remote req p pages\<close>: the requests \<open>req p\<close>, \<open>req (p + 1)\<close>, ... are answered
  with status 200 and the given pages, each a non-empty array of descriptors.
\<close>

fun serves :: "remote \<Rightarrow> (int \<Rightarrow> request) \<Rightarrow> int \<Rightarrow> json list list \<Rightarrow> bool" where
  "serves remote req p [] = True"
| "serves remote req p (items # pages) =
     (remote (req p) = Inr \<lparr>status_code = 200, json_body = Some (JArr items)\<rparr> \<and>
      items \<noteq> [] \<and> list_all descriptor items \<and>
      serves remote req (p + 1) pages)"

text \<open>The answers that end the paging of an endpoint.\<close>

definition empty_page :: "error + response" where
  "empty_page = Inr \<lparr>status_code = 200, json_body = Some (JArr [])\<rparr>"

definition not_found :: "remote \<Rightarrow> request \<Rightarrow> bool" where
  "not_found remote r = (case remote r of Inl e \<Rightarrow> False | Inr resp \<Rightarrow> status_code resp = 404)"

text \<open>
  The items of the page that a request is answered with, and the property that every
  name of a list comes from a descriptor with a matching language received for one of
  the given requests.
\<close>

definition received :: "remote \<Rightarrow> request \<Rightarrow> json list" where
  "received remote r =
     (case remote r of
        Inl e \<Rightarrow> []
      | Inr resp \<Rightarrow> (case json_body resp of Some (JArr items) \<Rightarrow> items | _ \<Rightarrow> []))"

definition justified :: "remote \<Rightarrow> json list \<Rightarrow> request list \<Rightarrow> bool" where
  "justified remote names reqs =
     (\<forall>n \<in> set names. \<exists>r \<in> set reqs. \<exists>d \<in> set (received remote r). js_language d \<and> name_of d = n)"

text \<open>
  The answers after which the loop goes on to the next page, whatever the status: any
  status other than 404 and outside 400 to 599, with a body that is a non-empty array
  of objects, of which those with a matching language have a \<^verbatim>\<open>name\<close>.
  \<open>passes remote req p n\<close>: the \<open>n\<close> requests from \<open>req p\<close> on have such answers.
\<close>

fun collectable :: "json \<Rightarrow> bool" where
  "collectable (JObj kv) = (js_language (JObj kv) \<longrightarrow> map_of kv ''name'' \<noteq> None)"
| "collectable v = False"

definition passable :: "error + response \<Rightarrow> bool" where
  "passable answer =
     (case answer of
        Inl e \<Rightarrow> False
      | Inr resp \<Rightarrow>
          status_code resp \<noteq> 404 \<and>
          \<not> (400 \<le> status_code resp \<and> status_code resp < 600) \<and>
          (case json_body resp of
             Some (JArr items) \<Rightarrow> items \<noteq> [] \<and> list_all collectable items
           | _ \<Rightarrow> False))"

fun passes :: "remote \<Rightarrow> (int \<Rightarrow> request) \<Rightarrow> int \<Rightarrow> nat \<Rightarrow> bool" where
  "passes remote req p 0 = True"
| "passes remote req p (Suc n) = (passable (remote (req p)) \<and> passes remote req (p + 1) n)"

text \<open>A request answered with a status from 400 to 599 other than 404.\<close>

definition failing :: "remote \<Rightarrow> request \<Rightarrow> bool" where
  "failing remote r =
     (case remote r of
        Inl e \<Rightarrow> False
      | Inr resp \<Rightarrow> 400 \<le> status_code resp \<and> status_code resp < 600 \<and> status_code resp \<noteq> 404)"

section \<open>Example accounts\<close>

text \<open>
  The account \<^verbatim>\<open>acme\<close> of the specification's end-to-end scenario, and remote APIs
  given by the table of their answers. On the names of repositories, which are strings,
  \<^verbatim>\<open>str\<close> is the identity.
\<close>

definition acme :: config where
  "acme = \<lparr>ORG = ''acme'', TOKEN = ''secret''\<rparr>"

fun text_of :: "json \<Rightarrow> string" where
  "text_of (JStr s) = s"
| "text_of v = []"

definition answers :: "(request \<times> response) list \<Rightarrow> remote" where
  "answers table r = (case map_of table r of None \<Rightarrow> Inl ConnectionError | Some resp \<Rightarrow> Inr resp)"

definition always :: "response \<Rightarrow> remote" where
  "always resp r = Inr resp"

definition ok :: "json list \<Rightarrow> response" where
  "ok items = \<lparr>status_code = 200, json_body = Some (JArr items)\<rparr>"

definition status :: "int \<Rightarrow> response" where
  "status n = \<lparr>status_code = n, json_body = None\<rparr>"

definition repo_a :: json where
  "repo_a = JObj [(''name'', JStr ''a''), (''language'', JStr ''JavaScript'')]"

definition repo_b :: json where
  "repo_b = JObj [(''name'', JStr ''b''), (''language'', JStr ''Python'')]"

definition repo_c :: json where
  "repo_c = JObj [(''name'', JStr ''c''), (''language'', JStr ''TypeScript'')]"

definition repo_lower :: json where
  "repo_lower = JObj [(''name'', JStr ''lower''), (''language'', JStr ''javascript'')]"

definition repo_null :: json where
  "repo_null = JObj [(''name'', JStr ''null''), (''language'', JNull)]"

definition repo_bare :: json where
  "repo_bare = JObj [(''name'', JStr ''bare'')]"

definition org_page :: "int \<Rightarrow> request" where
  "org_page p = page_request acme (org_endpoint ''acme'') p"

definition user_page :: "int \<Rightarrow> request" where
  "user_page p = page_request acme (user_endpoint ''acme'') p"

definition acme_org :: remote where
  "acme_org = answers [(org_page 1, ok [repo_a, repo_b]), (org_page 2, ok [])]"

definition acme_languages :: remote where
  "acme_languages =
     answers [(org_page 1, ok [repo_lower, repo_a, repo_null, repo_bare]), (org_page 2, ok [])]"

definition acme_user :: remote where
  "acme_user =
     answers [(org_page 1, status 404), (user_page 1, ok [repo_a, repo_b]), (user_page 2, ok [])]"

definition acme_unknown :: remote where
  "acme_unknown = answers [(org_page 1, status 404), (user_page 1, status 404)]"

definition acme_mixed :: remote where
  "acme_mixed =
     answers [(org_page 1, ok [repo_a, repo_b]), (org_page 2, status 404),
              (user_page 1, ok [repo_c]), (user_page 2, ok [])]"

definition acme_failing :: remote where
  "acme_failing = answers [(org_page 1, ok [repo_a, repo_b]), (org_page 2, status 500)]"

definition acme_mixed_failing :: remote where
  "acme_mixed_failing =
     answers [(org_page 1, ok [repo_a, repo_b]), (org_page 2, status 404),
              (user_page 1, status 500)]"

definition acme_full_page :: remote where
  "acme_full_page = answers [(org_page 1, ok (replicate 100 repo_a)), (org_page 2, ok [])]"

definition acme_other_success :: remote where
  "acme_other_success = always \<lparr>status_code = 203, json_body = Some (JArr [])\<rparr>"

section \<open>Properties of the loops\<close>

subsection \<open>One page\<close>

text \<open>
  The loop over a page of descriptors appends the names of those with a matching
  language, and whenever it ends without an exception it has done so.
\<close>

lemma collect_descriptors:
  "list_all descriptor items \<Longrightarrow> collect items acc = Inr (acc @ matching_names items)"
proof (induction items arbitrary: acc)
  case Nil
  then show ?case by (simp add: matching_names_def)
next
  case (Cons d items)
  then obtain kv n where d: "d = JObj kv" "map_of kv ''name'' = Some n"
    by (cases d) auto
  with Cons show ?case
    by (auto simp: matching_names_def dict_get_def split: option.splits)
qed

lemma collect_result:
  "collect items acc = Inr acc' \<Longrightarrow> acc' = acc @ matching_names items"
proof (induction items arbitrary: acc)
  case Nil
  then show ?case by (simp add: matching_names_def)
next
  case (Cons d items)
  then show ?case
    by (cases d) (fastforce simp: matching_names_def dict_get_def split: option.splits if_splits)+
qed

lemma iterated_array:
  assumes "truthy data" and "iter data = Inr items" and "collect items acc = Inr acc'"
  shows "data = JArr items"
proof (cases data)
  case (JObj kv)
  with assms(1) obtain x rest where "kv = x # rest" by (cases kv) auto
  with JObj assms(2,3) show ?thesis by auto
next
  case (JStr str)
  with assms(1) obtain c rest where "str = c # rest" by (cases str) auto
  with JStr assms(2,3) show ?thesis by auto
qed (use assms in auto)

text \<open>One pass through the body of the loop, by the answer to its request.\<close>

lemma iteration_page:
  assumes "remote (page_request cfg endpoint page) = Inr \<lparr>status_code = 200, json_body = Some (JArr items)\<rparr>"
    and "items \<noteq> []" and "list_all descriptor items"
  shows "iteration cfg remote endpoint page s =
           (Next, \<lparr>repos = repos s @ matching_names items,
                   log = log s @ [page_request cfg endpoint page]\<rparr>)"
  using assms
  by (simp add: iteration_def raise_for_status_def resp_json_def collect_descriptors)

lemma iteration_empty:
  assumes "remote (page_request cfg endpoint page) = empty_page"
  shows "iteration cfg remote endpoint page s =
           (Exit Return, s\<lparr>log := log s @ [page_request cfg endpoint page]\<rparr>)"
  using assms
  by (simp add: iteration_def raise_for_status_def resp_json_def empty_page_def)

lemma iteration_not_found:
  assumes "not_found remote (page_request cfg endpoint page)"
  shows "iteration cfg remote endpoint page s =
           (Exit Break, s\<lparr>log := log s @ [page_request cfg endpoint page]\<rparr>)"
  using assms
  by (simp add: iteration_def not_found_def split: sum.splits)

lemma iteration_http_error:
  assumes "remote (page_request cfg endpoint page) = Inr resp"
    and "400 \<le> status_code resp" and "status_code resp < 600" and "status_code resp \<noteq> 404"
  shows "iteration cfg remote endpoint page s =
           (Exit (Raise HTTPError), s\<lparr>log := log s @ [page_request cfg endpoint page]\<rparr>)"
  using assms by (simp add: iteration_def raise_for_status_def)

lemma iteration_log:
  "log (snd (iteration cfg remote endpoint page s)) = log s @ [page_request cfg endpoint page]"
  by (simp add: iteration_def Let_def split: sum.splits)

subsection \<open>A run of pages\<close>

text \<open>
  Pages of descriptors are passed one after the other; the answer after the last of
  them decides how the loop ends.
\<close>

lemma while_true_serves:
  "serves remote (page_request cfg endpoint) p pages \<Longrightarrow>
   while_true cfg remote endpoint p s =
   while_true cfg remote endpoint (p + int (length pages))
     \<lparr>repos = repos s @ concat (map matching_names pages),
      log = log s @ map (page_request cfg endpoint) [p..p + int (length pages) - 1]\<rparr>"
proof (induction pages arbitrary: p s)
  case Nil
  then show ?case by (cases s) simp
next
  case (Cons items pages)
  from Cons.prems have step: "iteration cfg remote endpoint p s =
      (Next, \<lparr>repos = repos s @ matching_names items, log = log s @ [page_request cfg endpoint p]\<rparr>)"
    by (simp add: iteration_page)
  from Cons.prems have rest: "serves remote (page_request cfg endpoint) (p + 1) pages"
    by simp
  have range: "[p..p + int (length pages)] = p # [p + 1..p + int (length pages)]"
    by (simp add: upto_rec1)
  show ?case
    by (subst while_true.simps) (simp add: step Cons.IH [OF rest] range add.assoc)
qed

lemma while_true_return:
  assumes "serves remote (page_request cfg endpoint) p pages"
    and "remote (page_request cfg endpoint (p + int (length pages))) = empty_page"
  shows "while_true cfg remote endpoint p s =
           Some (Return, \<lparr>repos = repos s @ concat (map matching_names pages),
                          log = log s @ map (page_request cfg endpoint) [p..p + int (length pages)]\<rparr>)"
proof -
  have range: "[p..p + int (length pages)] = [p..p + int (length pages) - 1] @ [p + int (length pages)]"
    by (simp add: upto_rec2)
  show ?thesis
    using assms(2)
    by (subst while_true_serves [OF assms(1)], subst while_true.simps)
      (simp add: iteration_empty range)
qed

lemma while_true_break:
  assumes "serves remote (page_request cfg endpoint) p pages"
    and "not_found remote (page_request cfg endpoint (p + int (length pages)))"
  shows "while_true cfg remote endpoint p s =
           Some (Break, \<lparr>repos = repos s @ concat (map matching_names pages),
                         log = log s @ map (page_request cfg endpoint) [p..p + int (length pages)]\<rparr>)"
proof -
  have range: "[p..p + int (length pages)] = [p..p + int (length pages) - 1] @ [p + int (length pages)]"
    by (simp add: upto_rec2)
  show ?thesis
    using assms(2)
    by (subst while_true_serves [OF assms(1)], subst while_true.simps)
      (simp add: iteration_not_found range)
qed

subsection \<open>Where the names come from\<close>

text \<open>
  The property \<open>justified\<close> is kept by every pass through the body, hence by the loop
  whenever it ends, and by the loop over the endpoints.
\<close>

lemma justified_page:
  assumes "justified remote names reqs" and "received remote r = items"
  shows "justified remote (names @ matching_names items) (reqs @ [r])"
  using assms unfolding justified_def matching_names_def by fastforce

lemma justified_request:
  "justified remote names reqs \<Longrightarrow> justified remote names (reqs @ [r])"
  unfolding justified_def by fastforce

lemma iteration_justified:
  assumes "iteration cfg remote endpoint page s = (c, s')"
    and "justified remote (repos s) (log s)"
  shows "justified remote (repos s') (log s')"
proof (cases "\<exists>acc. c = Next")
  case False
  with assms(1) have "repos s' = repos s" "log s' = log s @ [page_request cfg endpoint page]"
    by (auto simp: iteration_def Let_def split: sum.splits if_splits)
  with assms(2) show ?thesis by (simp add: justified_request)
next
  case True
  then have c: "c = Next" by simp
  with assms(1) obtain resp data items where
    resp: "remote (page_request cfg endpoint page) = Inr resp" "resp_json resp = Inr data"
    and data: "truthy data" "iter data = Inr items" "collect items (repos s) = Inr (repos s')"
    and log: "log s' = log s @ [page_request cfg endpoint page]"
    by (auto simp: iteration_def Let_def split: sum.splits if_splits)
  from data have "data = JArr items" by (rule iterated_array)
  with resp have "received remote (page_request cfg endpoint page) = items"
    by (auto simp: received_def resp_json_def split: option.splits)
  moreover from data(3) have "repos s' = repos s @ matching_names items"
    by (rule collect_result)
  ultimately show ?thesis using assms(2) log by (simp add: justified_page)
qed

lemma while_true_justified:
  assumes "while_true cfg remote endpoint page s = Some y"
  shows "justified remote (repos s) (log s) \<longrightarrow> justified remote (repos (snd y)) (log (snd y))"
proof (rule while_true.raw_induct
    [where P = "\<lambda>cfg remote endpoint page s y.
       justified remote (repos s) (log s) \<longrightarrow> justified remote (repos (snd y)) (log (snd y))",
     OF _ assms])
  fix loop cfg remote endpoint page s y
  assume IH: "\<And>cfg remote endpoint page s y. loop cfg remote endpoint page s = Some y \<Longrightarrow>
      justified remote (repos s) (log s) \<longrightarrow> justified remote (repos (snd y)) (log (snd y))"
    and unfolded: "(case iteration cfg remote endpoint page s of
        (Next, s') \<Rightarrow> loop cfg remote endpoint (page + 1) s'
      | (Exit x, s') \<Rightarrow> Some (x, s')) = Some y"
  show "justified remote (repos s) (log s) \<longrightarrow> justified remote (repos (snd y)) (log (snd y))"
  proof
    assume start: "justified remote (repos s) (log s)"
    obtain c s' where step: "iteration cfg remote endpoint page s = (c, s')"
      by (cases "iteration cfg remote endpoint page s")
    then have j: "justified remote (repos s') (log s')"
      using start by (rule iteration_justified)
    show "justified remote (repos (snd y)) (log (snd y))"
    proof (cases c)
      case Next
      with step unfolded have "loop cfg remote endpoint (page + 1) s' = Some y" by simp
      then show ?thesis using j IH by blast
    next
      case (Exit x)
      with step unfolded j show ?thesis by auto
    qed
  qed
qed

lemma for_endpoints_justified:
  "for_endpoints cfg remote endpoints s = Some (Inr names, reqs) \<Longrightarrow>
   justified remote (repos s) (log s) \<Longrightarrow> justified remote names reqs"
proof (induction endpoints arbitrary: s)
  case Nil
  then show ?case by auto
next
  case (Cons e es)
  from Cons.prems(1) obtain x s' where loop: "while_true cfg remote e 1 s = Some (x, s')"
    by (auto split: option.splits)
  from loop Cons.prems(2) have j: "justified remote (repos s') (log s')"
    using while_true_justified by fastforce
  show ?case
  proof (cases x)
    case Break
    with Cons.prems(1) loop have "for_endpoints cfg remote es s' = Some (Inr names, reqs)" by simp
    then show ?thesis using j by (rule Cons.IH)
  next
    case Return
    with Cons.prems(1) loop j show ?thesis by auto
  next
    case (Raise e)
    with Cons.prems(1) loop show ?thesis by auto
  qed
qed

subsection \<open>Pages that let the loop go on\<close>

text \<open>
  A pass through the body goes on to the next page exactly when the answer is
  \<open>passable\<close>; after \<open>n\<close> such answers the loop is at page \<open>p + n\<close>.
\<close>

lemma collect_collectable:
  "list_all collectable items \<Longrightarrow> collect items acc = Inr (acc @ matching_names items)"
proof (induction items arbitrary: acc)
  case Nil
  then show ?case by (simp add: matching_names_def)
next
  case (Cons d items)
  then obtain kv where d: "d = JObj kv" by (cases d) auto
  with Cons show ?case
    by (auto simp: matching_names_def dict_get_def split: option.splits)
qed

lemma iteration_passable:
  assumes "passable (remote (page_request cfg endpoint page))"
  shows "\<exists>names. iteration cfg remote endpoint page s =
           (Next, \<lparr>repos = names, log = log s @ [page_request cfg endpoint page]\<rparr>)"
proof -
  from assms obtain resp items where
    resp: "remote (page_request cfg endpoint page) = Inr resp"
    and status: "status_code resp \<noteq> 404" "\<not> (400 \<le> status_code resp \<and> status_code resp < 600)"
    and items: "json_body resp = Some (JArr items)" "items \<noteq> []" "list_all collectable items"
    by (auto simp: passable_def split: sum.splits option.splits json.splits)
  then have "iteration cfg remote endpoint page s =
      (Next, \<lparr>repos = repos s @ matching_names items,
              log = log s @ [page_request cfg endpoint page]\<rparr>)"
    by (cases s) (simp add: iteration_def raise_for_status_def resp_json_def collect_collectable)
  then show ?thesis by blast
qed

lemma iteration_next_passable:
  assumes "iteration cfg remote endpoint page s = (Next, s')"
  shows "passable (remote (page_request cfg endpoint page))"
proof -
  from assms obtain resp data items where
    resp: "remote (page_request cfg endpoint page) = Inr resp" "resp_json resp = Inr data"
    and status: "status_code resp \<noteq> 404" "raise_for_status resp = Inr ()"
    and data: "truthy data" "iter data = Inr items" "collect items (repos s) = Inr (repos s')"
    by (auto simp: iteration_def Let_def split: sum.splits if_splits)
  from data have arr: "data = JArr items" by (rule iterated_array)
  have "list_all collectable items" if "collect items acc = Inr acc'" for acc acc'
    using that
  proof (induction items arbitrary: acc)
    case Nil
    then show ?case by simp
  next
    case (Cons d items)
    then show ?case
      by (cases d) (auto simp: dict_get_def Let_def split: option.splits if_splits)
  qed
  with data(3) have "list_all collectable items" by blast
  with resp status data(1) arr show ?thesis
    by (auto simp: passable_def resp_json_def raise_for_status_def split: option.splits if_splits)
qed

lemma while_true_passes:
  "passes remote (page_request cfg endpoint) p n \<Longrightarrow>
   \<exists>names. while_true cfg remote endpoint p s =
     while_true cfg remote endpoint (p + int n)
       \<lparr>repos = names, log = log s @ map (page_request cfg endpoint) [p..p + int n - 1]\<rparr>"
proof (induction n arbitrary: p s)
  case 0
  show ?case by (rule exI [of _ "repos s"]) (cases s, simp)
next
  case (Suc n)
  from Suc.prems obtain names where step: "iteration cfg remote endpoint p s =
      (Next, \<lparr>repos = names, log = log s @ [page_request cfg endpoint p]\<rparr>)"
    using iteration_passable by fastforce
  from Suc.prems have rest: "passes remote (page_request cfg endpoint) (p + 1) n"
    by simp
  have range: "[p..p + int n] = p # [p + 1..p + int n]"
    by (simp add: upto_rec1)
  from Suc.IH [OF rest, of "\<lparr>repos = names, log = log s @ [page_request cfg endpoint p]\<rparr>"]
  obtain names' where "while_true cfg remote endpoint (p + 1)
        \<lparr>repos = names, log = log s @ [page_request cfg endpoint p]\<rparr> =
      while_true cfg remote endpoint (p + 1 + int n)
        \<lparr>repos = names',
         log = log \<lparr>repos = names, log = log s @ [page_request cfg endpoint p]\<rparr> @
           map (page_request cfg endpoint) [p + 1..p + 1 + int n - 1]\<rparr>"
    by blast
  then have "while_true cfg remote endpoint p s =
      while_true cfg remote endpoint (p + int (Suc n))
        \<lparr>repos = names', log = log s @ map (page_request cfg endpoint) [p..p + int (Suc n) - 1]\<rparr>"
    by (subst while_true.simps) (simp add: step range add.assoc)
  then show ?case by blast
qed

lemma while_true_passes_http_error:
  assumes "passes remote (page_request cfg endpoint) p n"
    and "remote (page_request cfg endpoint (p + int n)) = Inr resp"
    and "400 \<le> status_code resp" and "status_code resp < 600" and "status_code resp \<noteq> 404"
  shows "\<exists>names. while_true cfg remote endpoint p s =
           Some (Raise HTTPError,
                 \<lparr>repos = names, log = log s @ map (page_request cfg endpoint) [p..p + int n]\<rparr>)"
proof -
  have range: "[p..p + int n] = [p..p + int n - 1] @ [p + int n]"
    by (simp add: upto_rec2)
  from while_true_passes [OF assms(1), where s = s] obtain names where
    "while_true cfg remote endpoint p s =
     while_true cfg remote endpoint (p + int n)
       \<lparr>repos = names, log = log s @ map (page_request cfg endpoint) [p..p + int n - 1]\<rparr>"
    by blast
  then show ?thesis
    using assms(2-)
    by (subst (asm) (2) while_true.simps) (simp add: iteration_http_error range)
qed

lemma while_true_passes_break:
  assumes "passes remote (page_request cfg endpoint) p n"
    and "not_found remote (page_request cfg endpoint (p + int n))"
  shows "\<exists>names. while_true cfg remote endpoint p s =
           Some (Break,
                 \<lparr>repos = names, log = log s @ map (page_request cfg endpoint) [p..p + int n]\<rparr>)"
proof -
  have range: "[p..p + int n] = [p..p + int n - 1] @ [p + int n]"
    by (simp add: upto_rec2)
  from while_true_passes [OF assms(1), where s = s] obtain names where
    "while_true cfg remote endpoint p s =
     while_true cfg remote endpoint (p + int n)
       \<lparr>repos = names, log = log s @ map (page_request cfg endpoint) [p..p + int n - 1]\<rparr>"
    by blast
  then show ?thesis
    using assms(2)
    by (subst (asm) (2) while_true.simps) (simp add: iteration_not_found range)
qed

subsection \<open>The requests of a run\<close>

text \<open>
  A run that has not raised an \<open>HTTPError\<close> has sent no request with a failing
  answer, and a run of the loop that ends has begun with the request for its first page.
\<close>

lemma failing_raises:
  assumes "failing remote (page_request cfg endpoint page)"
  shows "iteration cfg remote endpoint page s =
           (Exit (Raise HTTPError), s\<lparr>log := log s @ [page_request cfg endpoint page]\<rparr>)"
proof -
  from assms obtain resp where "remote (page_request cfg endpoint page) = Inr resp"
    "400 \<le> status_code resp" "status_code resp < 600" "status_code resp \<noteq> 404"
    by (auto simp: failing_def split: sum.splits)
  then show ?thesis by (rule iteration_http_error)
qed

lemma iteration_clean:
  assumes "iteration cfg remote endpoint page s = (c, s')"
    and "list_all (\<lambda>r. \<not> failing remote r) (log s)"
  shows "c = Exit (Raise HTTPError) \<or> list_all (\<lambda>r. \<not> failing remote r) (log s')"
proof (cases "failing remote (page_request cfg endpoint page)")
  case True
  with assms(1) show ?thesis by (simp add: failing_raises)
next
  case False
  have "log s' = log s @ [page_request cfg endpoint page]"
    using iteration_log [of cfg remote endpoint page s] assms(1) by simp
  with False assms(2) show ?thesis by simp
qed

lemma while_true_clean:
  assumes "while_true cfg remote endpoint page s = Some y"
  shows "list_all (\<lambda>r. \<not> failing remote r) (log s) \<longrightarrow>
         fst y = Raise HTTPError \<or> list_all (\<lambda>r. \<not> failing remote r) (log (snd y))"
proof (rule while_true.raw_induct
    [where P = "\<lambda>cfg remote endpoint page s y.
       list_all (\<lambda>r. \<not> failing remote r) (log s) \<longrightarrow>
       fst y = Raise HTTPError \<or> list_all (\<lambda>r. \<not> failing remote r) (log (snd y))",
     OF _ assms])
  fix loop cfg remote endpoint page s y
  assume IH: "\<And>cfg remote endpoint page s y. loop cfg remote endpoint page s = Some y \<Longrightarrow>
      list_all (\<lambda>r. \<not> failing remote r) (log s) \<longrightarrow>
      fst y = Raise HTTPError \<or> list_all (\<lambda>r. \<not> failing remote r) (log (snd y))"
    and unfolded: "(case iteration cfg remote endpoint page s of
        (Next, s') \<Rightarrow> loop cfg remote endpoint (page + 1) s'
      | (Exit x, s') \<Rightarrow> Some (x, s')) = Some y"
  show "list_all (\<lambda>r. \<not> failing remote r) (log s) \<longrightarrow>
      fst y = Raise HTTPError \<or> list_all (\<lambda>r. \<not> failing remote r) (log (snd y))"
  proof
    assume start: "list_all (\<lambda>r. \<not> failing remote r) (log s)"
    obtain c s' where step: "iteration cfg remote endpoint page s = (c, s')"
      by (cases "iteration cfg remote endpoint page s")
    then have after: "c = Exit (Raise HTTPError) \<or> list_all (\<lambda>r. \<not> failing remote r) (log s')"
      using start by (rule iteration_clean)
    show "fst y = Raise HTTPError \<or> list_all (\<lambda>r. \<not> failing remote r) (log (snd y))"
    proof (cases c)
      case Next
      with step unfolded have "loop cfg remote endpoint (page + 1) s' = Some y" by simp
      then show ?thesis using after Next IH by blast
    next
      case (Exit x)
      with step unfolded after show ?thesis by auto
    qed
  qed
qed

lemma for_endpoints_clean:
  "for_endpoints cfg remote endpoints s = Some (res, reqs) \<Longrightarrow>
   list_all (\<lambda>r. \<not> failing remote r) (log s) \<Longrightarrow>
   res = Inl HTTPError \<or> list_all (\<lambda>r. \<not> failing remote r) reqs"
proof (induction endpoints arbitrary: s)
  case Nil
  then show ?case by auto
next
  case (Cons e es)
  from Cons.prems(1) obtain x s' where loop: "while_true cfg remote e 1 s = Some (x, s')"
    by (auto split: option.splits)
  with Cons.prems(2) have after: "x = Raise HTTPError \<or> list_all (\<lambda>r. \<not> failing remote r) (log s')"
    using while_true_clean by fastforce
  show ?case
  proof (cases x)
    case Break
    with Cons.prems(1) loop have "for_endpoints cfg remote es s' = Some (res, reqs)" by simp
    then show ?thesis using after Break by (auto dest: Cons.IH)
  next
    case Return
    with Cons.prems(1) loop after show ?thesis by auto
  next
    case (Raise e)
    with Cons.prems(1) loop after show ?thesis by auto
  qed
qed

lemma while_true_log:
  assumes "while_true cfg remote endpoint page s = Some y"
  shows "\<exists>rest. log (snd y) = log s @ page_request cfg endpoint page # rest"
proof (rule while_true.raw_induct
    [where P = "\<lambda>cfg remote endpoint page s y.
       \<exists>rest. log (snd y) = log s @ page_request cfg endpoint page # rest",
     OF _ assms])
  fix loop cfg remote endpoint page s y
  assume IH: "\<And>cfg remote endpoint page s y. loop cfg remote endpoint page s = Some y \<Longrightarrow>
      \<exists>rest. log (snd y) = log s @ page_request cfg endpoint page # rest"
    and unfolded: "(case iteration cfg remote endpoint page s of
        (Next, s') \<Rightarrow> loop cfg remote endpoint (page + 1) s'
      | (Exit x, s') \<Rightarrow> Some (x, s')) = Some y"
  obtain c s' where step: "iteration cfg remote endpoint page s = (c, s')"
    by (cases "iteration cfg remote endpoint page s")
  then have sent: "log s' = log s @ [page_request cfg endpoint page]"
    using iteration_log [of cfg remote endpoint page s] by simp
  show "\<exists>rest. log (snd y) = log s @ page_request cfg endpoint page # rest"
  proof (cases c)
    case Next
    with step unfolded have "loop cfg remote endpoint (page + 1) s' = Some y" by simp
    then obtain rest where "log (snd y) = log s' @ page_request cfg endpoint (page + 1) # rest"
      using IH by blast
    with sent show ?thesis by simp
  next
    case (Exit x)
    with step unfolded sent show ?thesis by auto
  qed
qed

subsection \<open>The examples\<close>

lemmas examples = acme_def answers_def always_def ok_def status_def repo_a_def repo_b_def repo_c_def
  repo_lower_def repo_null_def repo_bare_def
  org_page_def user_page_def page_request_def org_endpoint_def user_endpoint_def GITHUB_API_def
  HEADERS_def empty_page_def not_found_def

section \<open>The claims of the specification\<close>

text \<open>
  C1. When the organization endpoint answers pages 1 to N with status 200 and non-empty
  arrays of descriptors, and page N + 1 with status 200 and an empty array, then
  \<open>list_js_repos\<close> returns the names of the descriptors with a matching language, page
  after page and in the order of each page, and the requests it sends are those for the
  pages 1 to N + 1 of the organization endpoint: none goes to the user endpoint.
\<close>

theorem list_js_repos_org_pages:
  assumes "serves remote (page_request cfg (org_endpoint org)) 1 pages"
    and "remote (page_request cfg (org_endpoint org) (1 + int (length pages))) = empty_page"
  shows "let reqs = map (page_request cfg (org_endpoint org)) [1..1 + int (length pages)] in
           list_js_repos cfg remote org sent =
             Some (Inr (concat (map matching_names pages)), sent @ reqs) \<and>
           (\<forall>r \<in> set reqs. url r \<noteq> GITHUB_API @ ''/'' @ user_endpoint org)"
proof -
  have "list_js_repos cfg remote org sent =
          Some (Inr (concat (map matching_names pages)),
                sent @ map (page_request cfg (org_endpoint org)) [1..1 + int (length pages)])"
    by (simp add: list_js_repos_def while_true_return [OF assms])
  moreover have "url (page_request cfg (org_endpoint org) p) \<noteq> GITHUB_API @ ''/'' @ user_endpoint org" for p
    by (simp add: page_request_def org_endpoint_def user_endpoint_def)
  ultimately show ?thesis by (auto simp: Let_def)
qed

theorem list_js_repos_org_pages_witness:
  "serves acme_org (page_request acme (org_endpoint ''acme'')) 1 [[repo_a, repo_b]] \<and>
   acme_org (page_request acme (org_endpoint ''acme'') 2) = empty_page \<and>
   list_js_repos acme acme_org ''acme'' [] = Some (Inr [JStr ''a''], [org_page 1, org_page 2]) \<and>
   url (org_page 1) \<noteq> GITHUB_API @ ''/'' @ user_endpoint ''acme'' \<and>
   url (org_page 2) \<noteq> GITHUB_API @ ''/'' @ user_endpoint ''acme''"
proof -
  have pages: "serves acme_org (page_request acme (org_endpoint ''acme'')) 1 [[repo_a, repo_b]]"
    by (simp add: acme_org_def examples)
  have last: "acme_org (page_request acme (org_endpoint ''acme'') (1 + int (length [[repo_a, repo_b]]))) = empty_page"
    by (simp add: acme_org_def examples)
  show ?thesis
    using pages last list_js_repos_org_pages [OF pages last, of "[]"]
    by (simp add: Let_def matching_names_def dict_get_def upto_rec1 org_page_def repo_a_def repo_b_def)
qed

text \<open>
  C4. When the organization endpoint answers page 1 with status 404, \<open>list_js_repos\<close>
  goes on with the user endpoint of the same identifier, from page 1 and with an empty
  list. When that endpoint answers pages 1 to N with non-empty arrays of descriptors and
  then ends the paging, with an empty array or status 404, the result is the names of
  its descriptors with a matching language, in order, and the requests sent are the one
  to the organization endpoint followed by those for the pages 1 to N + 1 of the user
  endpoint.
\<close>

theorem list_js_repos_user_fallback:
  assumes "not_found remote (page_request cfg (org_endpoint org) 1)"
  shows "list_js_repos cfg remote org sent =
           for_endpoints cfg remote [user_endpoint org]
             \<lparr>repos = [], log = sent @ [page_request cfg (org_endpoint org) 1]\<rparr> \<and>
         (serves remote (page_request cfg (user_endpoint org)) 1 pages \<and>
          (remote (page_request cfg (user_endpoint org) (1 + int (length pages))) = empty_page \<or>
           not_found remote (page_request cfg (user_endpoint org) (1 + int (length pages)))) \<longrightarrow>
          list_js_repos cfg remote org sent =
            Some (Inr (concat (map matching_names pages)),
                  sent @ page_request cfg (org_endpoint org) 1 #
                    map (page_request cfg (user_endpoint org)) [1..1 + int (length pages)]))"
proof -
  have org: "while_true cfg remote (org_endpoint org) 1 \<lparr>repos = [], log = sent\<rparr> =
      Some (Break, \<lparr>repos = [], log = sent @ [page_request cfg (org_endpoint org) 1]\<rparr>)"
    using while_true_break [of remote cfg "org_endpoint org" 1 "[]"] assms by simp
  then have continue: "list_js_repos cfg remote org sent =
           for_endpoints cfg remote [user_endpoint org]
             \<lparr>repos = [], log = sent @ [page_request cfg (org_endpoint org) 1]\<rparr>"
    by (simp add: list_js_repos_def)
  have "list_js_repos cfg remote org sent =
            Some (Inr (concat (map matching_names pages)),
                  sent @ page_request cfg (org_endpoint org) 1 #
                    map (page_request cfg (user_endpoint org)) [1..1 + int (length pages)])"
    if pages: "serves remote (page_request cfg (user_endpoint org)) 1 pages"
      and last: "remote (page_request cfg (user_endpoint org) (1 + int (length pages))) = empty_page \<or>
           not_found remote (page_request cfg (user_endpoint org) (1 + int (length pages)))"
    using last
  proof
    assume "remote (page_request cfg (user_endpoint org) (1 + int (length pages))) = empty_page"
    with pages show ?thesis
      by (simp add: continue while_true_return)
  next
    assume "not_found remote (page_request cfg (user_endpoint org) (1 + int (length pages)))"
    with pages show ?thesis
      by (simp add: continue while_true_break)
  qed
  with continue show ?thesis by blast
qed

theorem list_js_repos_user_fallback_witness:
  "not_found acme_user (page_request acme (org_endpoint ''acme'') 1) \<and>
   serves acme_user (page_request acme (user_endpoint ''acme'')) 1 [[repo_a, repo_b]] \<and>
   acme_user (page_request acme (user_endpoint ''acme'') 2) = empty_page \<and>
   list_js_repos acme acme_user ''acme'' [] =
     for_endpoints acme acme_user [user_endpoint ''acme''] \<lparr>repos = [], log = [org_page 1]\<rparr> \<and>
   list_js_repos acme acme_user ''acme'' [] =
     Some (Inr [JStr ''a''], [org_page 1, user_page 1, user_page 2])"
proof -
  have org: "not_found acme_user (page_request acme (org_endpoint ''acme'') 1)"
    by (simp add: acme_user_def examples)
  have pages: "serves acme_user (page_request acme (user_endpoint ''acme'')) 1 [[repo_a, repo_b]]"
    by (simp add: acme_user_def examples)
  have last: "acme_user (page_request acme (user_endpoint ''acme'') 2) = empty_page"
    by (simp add: acme_user_def examples)
  have names: "matching_names [repo_a, repo_b] = [JStr ''a'']"
    by (simp add: matching_names_def dict_get_def repo_a_def repo_b_def)
  show ?thesis
    using org pages last list_js_repos_user_fallback [OF org, of "[]" "[[repo_a, repo_b]]"]
    by (auto simp add: names upto_rec1 org_page_def user_page_def simp del: for_endpoints.simps)
qed

text \<open>
  C5. When both endpoints answer their page 1 with status 404, \<open>list_js_repos\<close> returns
  the empty list and raises nothing, after one request to each endpoint.
\<close>

theorem list_js_repos_unknown_account:
  assumes "not_found remote (page_request cfg (org_endpoint org) 1)"
    and "not_found remote (page_request cfg (user_endpoint org) 1)"
  shows "list_js_repos cfg remote org sent =
           Some (Inr [], sent @ [page_request cfg (org_endpoint org) 1,
                                 page_request cfg (user_endpoint org) 1])"
  using while_true_break [of remote cfg "org_endpoint org" 1 "[]"]
    while_true_break [of remote cfg "user_endpoint org" 1 "[]"] assms
  by (simp add: list_js_repos_def)

theorem list_js_repos_unknown_account_witness:
  "not_found acme_unknown (page_request acme (org_endpoint ''acme'') 1) \<and>
   not_found acme_unknown (page_request acme (user_endpoint ''acme'') 1) \<and>
   list_js_repos acme acme_unknown ''acme'' [] = Some (Inr [], [org_page 1, user_page 1])"
proof -
  have org: "not_found acme_unknown (page_request acme (org_endpoint ''acme'') 1)"
    by (simp add: acme_unknown_def examples)
  have user: "not_found acme_unknown (page_request acme (user_endpoint ''acme'') 1)"
    by (simp add: acme_unknown_def examples)
  show ?thesis
    using org user list_js_repos_unknown_account [OF org user, of "[]"]
    by (simp add: org_page_def user_page_def)
qed

text \<open>
  C10. When the organization endpoint answers one or more pages with non-empty arrays of
  descriptors and the next page with status 404, \<open>list_js_repos\<close> does not stop: it
  goes on with the user endpoint from page 1, with the names collected so far. When the
  user endpoint then answers pages with non-empty arrays of descriptors and ends the
  paging, the result is the matching names of the organization pages followed by those
  of the user pages.
\<close>

theorem list_js_repos_both_endpoints:
  assumes "serves remote (page_request cfg (org_endpoint org)) 1 org_pages"
    and "org_pages \<noteq> []"
    and "not_found remote (page_request cfg (org_endpoint org) (1 + int (length org_pages)))"
  shows "list_js_repos cfg remote org sent =
           for_endpoints cfg remote [user_endpoint org]
             \<lparr>repos = concat (map matching_names org_pages),
              log = sent @ map (page_request cfg (org_endpoint org)) [1..1 + int (length org_pages)]\<rparr> \<and>
         (serves remote (page_request cfg (user_endpoint org)) 1 user_pages \<and>
          (remote (page_request cfg (user_endpoint org) (1 + int (length user_pages))) = empty_page \<or>
           not_found remote (page_request cfg (user_endpoint org) (1 + int (length user_pages)))) \<longrightarrow>
          list_js_repos cfg remote org sent =
            Some (Inr (concat (map matching_names org_pages) @ concat (map matching_names user_pages)),
                  sent @ map (page_request cfg (org_endpoint org)) [1..1 + int (length org_pages)]
                       @ map (page_request cfg (user_endpoint org)) [1..1 + int (length user_pages)]))"
proof -
  have continue: "list_js_repos cfg remote org sent =
           for_endpoints cfg remote [user_endpoint org]
             \<lparr>repos = concat (map matching_names org_pages),
              log = sent @ map (page_request cfg (org_endpoint org)) [1..1 + int (length org_pages)]\<rparr>"
    by (simp add: list_js_repos_def while_true_break [OF assms(1,3)])
  have "list_js_repos cfg remote org sent =
            Some (Inr (concat (map matching_names org_pages) @ concat (map matching_names user_pages)),
                  sent @ map (page_request cfg (org_endpoint org)) [1..1 + int (length org_pages)]
                       @ map (page_request cfg (user_endpoint org)) [1..1 + int (length user_pages)])"
    if pages: "serves remote (page_request cfg (user_endpoint org)) 1 user_pages"
      and last: "remote (page_request cfg (user_endpoint org) (1 + int (length user_pages))) = empty_page \<or>
           not_found remote (page_request cfg (user_endpoint org) (1 + int (length user_pages)))"
    using last
  proof
    assume "remote (page_request cfg (user_endpoint org) (1 + int (length user_pages))) = empty_page"
    with pages show ?thesis
      by (simp add: continue while_true_return)
  next
    assume "not_found remote (page_request cfg (user_endpoint org) (1 + int (length user_pages)))"
    with pages show ?thesis
      by (simp add: continue while_true_break)
  qed
  with continue show ?thesis by blast
qed

theorem list_js_repos_both_endpoints_witness:
  "serves acme_mixed (page_request acme (org_endpoint ''acme'')) 1 [[repo_a, repo_b]] \<and>
   [[repo_a, repo_b]] \<noteq> [] \<and>
   not_found acme_mixed (page_request acme (org_endpoint ''acme'') 2) \<and>
   serves acme_mixed (page_request acme (user_endpoint ''acme'')) 1 [[repo_c]] \<and>
   acme_mixed (page_request acme (user_endpoint ''acme'') 2) = empty_page \<and>
   list_js_repos acme acme_mixed ''acme'' [] =
     for_endpoints acme acme_mixed [user_endpoint ''acme'']
       \<lparr>repos = [JStr ''a''], log = [org_page 1, org_page 2]\<rparr> \<and>
   list_js_repos acme acme_mixed ''acme'' [] =
     Some (Inr [JStr ''a'', JStr ''c''], [org_page 1, org_page 2, user_page 1, user_page 2])"
proof -
  have org: "serves acme_mixed (page_request acme (org_endpoint ''acme'')) 1 [[repo_a, repo_b]]"
    by (simp add: acme_mixed_def examples)
  have stop: "not_found acme_mixed (page_request acme (org_endpoint ''acme'') (1 + int (length [[repo_a, repo_b]])))"
    by (simp add: acme_mixed_def examples)
  have user: "serves acme_mixed (page_request acme (user_endpoint ''acme'')) 1 [[repo_c]]"
    by (simp add: acme_mixed_def examples)
  have last: "acme_mixed (page_request acme (user_endpoint ''acme'') 2) = empty_page"
    by (simp add: acme_mixed_def examples)
  have names: "matching_names [repo_a, repo_b] = [JStr ''a'']" "matching_names [repo_c] = [JStr ''c'']"
    by (simp_all add: matching_names_def dict_get_def repo_a_def repo_b_def repo_c_def)
  show ?thesis
    using org stop user last list_js_repos_both_endpoints [OF org _ stop, of "[]" "[[repo_c]]"]
    by (auto simp add: names upto_rec1 org_page_def user_page_def simp del: for_endpoints.simps)
qed

text \<open>
  C2, as amended. When the contents endpoint answers with a response, \<open>check_workflow\<close>
  raises nothing and returns true exactly when the status is 200: every other status,
  also another one of the 200 class, 404 and 403, gives false.
\<close>

theorem check_workflow_status:
  assumes "remote (contents_request py_str cfg repo) = Inr resp"
  shows "check_workflow py_str cfg remote repo sent =
           (Inr (status_code resp = 200), sent @ [contents_request py_str cfg repo])"
  using assms by (simp add: check_workflow_def)

theorem check_workflow_status_witness:
  "always (status 200) (contents_request text_of acme (JStr ''a'')) = Inr (status 200) \<and>
   always (status 404) (contents_request text_of acme (JStr ''a'')) = Inr (status 404) \<and>
   always (status 403) (contents_request text_of acme (JStr ''a'')) = Inr (status 403) \<and>
   fst (check_workflow text_of acme (always (status 200)) (JStr ''a'') []) = Inr True \<and>
   fst (check_workflow text_of acme (always (status 404)) (JStr ''a'') []) = Inr False \<and>
   fst (check_workflow text_of acme (always (status 403)) (JStr ''a'') []) = Inr False"
proof -
  have answer: "always (status n) (contents_request text_of acme (JStr ''a'')) = Inr (status n)" for n
    by (simp add: always_def)
  show ?thesis
    using answer [of 200] answer [of 404] answer [of 403]
      check_workflow_status [of "always (status 200)" text_of acme "JStr ''a''" "status 200" "[]"]
      check_workflow_status [of "always (status 404)" text_of acme "JStr ''a''" "status 404" "[]"]
      check_workflow_status [of "always (status 403)" text_of acme "JStr ''a''" "status 403" "[]"]
    by (simp add: status_def)
qed

text \<open>
  The claim C2 as it is written fails: status 204 is of the 200 class, and the Checker
  returns false.
\<close>

theorem check_workflow_2xx_counterexample:
  "200 \<le> status_code (status 204) \<and> status_code (status 204) < 300 \<and>
   fst (check_workflow text_of acme (always (status 204)) (JStr ''a'') []) = Inr False"
  by (simp add: check_workflow_def always_def status_def)

text \<open>
  C3, as amended. A response with a status from 400 to 599 other than 404 that the
  Enumerator receives raises an \<open>HTTPError\<close> that leaves \<open>list_js_repos\<close>: no run
  that has received one returns a list; the run ends with the exception when the
  response comes from the organization endpoint after any number of pages that let the
  loop go on, and when it comes from the user endpoint after any such pages of the
  organization endpoint, its 404, and any such pages of the user endpoint. An exception
  that leaves \<open>list_js_repos\<close> ends \<open>main\<close> before any check is made. The Checker
  raises nothing on such a response: it returns false.
\<close>

theorem http_error_status:
  assumes "400 \<le> status_code resp" and "status_code resp < 600" and "status_code resp \<noteq> 404"
  shows "(list_js_repos cfg remote org [] = Some (res, reqs) \<and> r \<in> set reqs \<and>
          remote r = Inr resp \<longrightarrow> res = Inl HTTPError) \<and>
         (passes remote (page_request cfg (org_endpoint org)) 1 n \<and>
          remote (page_request cfg (org_endpoint org) (1 + int n)) = Inr resp \<longrightarrow>
          list_js_repos cfg remote org sent =
            Some (Inl HTTPError,
                  sent @ map (page_request cfg (org_endpoint org)) [1..1 + int n])) \<and>
         (passes remote (page_request cfg (org_endpoint org)) 1 n \<and>
          not_found remote (page_request cfg (org_endpoint org) (1 + int n)) \<and>
          passes remote (page_request cfg (user_endpoint org)) 1 m \<and>
          remote (page_request cfg (user_endpoint org) (1 + int m)) = Inr resp \<longrightarrow>
          list_js_repos cfg remote org sent =
            Some (Inl HTTPError,
                  sent @ map (page_request cfg (org_endpoint org)) [1..1 + int n]
                       @ map (page_request cfg (user_endpoint org)) [1..1 + int m])) \<and>
         (list_js_repos cfg remote (ORG cfg) sent = Some (Inl e, reqs') \<longrightarrow>
          main py_str cfg remote sent = Some (Crashed e, reqs')) \<and>
         (remote (contents_request py_str cfg repo) = Inr resp \<longrightarrow>
          fst (check_workflow py_str cfg remote repo sent) = Inr False)"
proof (intro conjI impI)
  assume a: "list_js_repos cfg remote org [] = Some (res, reqs) \<and> r \<in> set reqs \<and>
          remote r = Inr resp"
  then have "failing remote r"
    using assms by (simp add: failing_def)
  with a have "\<not> list_all (\<lambda>r. \<not> failing remote r) reqs"
    by (auto simp: list_all_iff)
  moreover from a have "for_endpoints cfg remote [org_endpoint org, user_endpoint org]
      \<lparr>repos = [], log = []\<rparr> = Some (res, reqs)"
    by (simp only: list_js_repos_def)
  then have "res = Inl HTTPError \<or> list_all (\<lambda>r. \<not> failing remote r) reqs"
    by (rule for_endpoints_clean) simp
  ultimately show "res = Inl HTTPError" by blast
next
  assume a: "passes remote (page_request cfg (org_endpoint org)) 1 n \<and>
          remote (page_request cfg (org_endpoint org) (1 + int n)) = Inr resp"
  then obtain names where "while_true cfg remote (org_endpoint org) 1 \<lparr>repos = [], log = sent\<rparr> =
      Some (Raise HTTPError, \<lparr>repos = names,
        log = log \<lparr>repos = [], log = sent\<rparr> @ map (page_request cfg (org_endpoint org)) [1..1 + int n]\<rparr>)"
    using while_true_passes_http_error [of remote cfg "org_endpoint org" 1 n resp] assms by blast
  then show "list_js_repos cfg remote org sent =
            Some (Inl HTTPError, sent @ map (page_request cfg (org_endpoint org)) [1..1 + int n])"
    by (simp add: list_js_repos_def)
next
  assume a: "passes remote (page_request cfg (org_endpoint org)) 1 n \<and>
          not_found remote (page_request cfg (org_endpoint org) (1 + int n)) \<and>
          passes remote (page_request cfg (user_endpoint org)) 1 m \<and>
          remote (page_request cfg (user_endpoint org) (1 + int m)) = Inr resp"
  then obtain names where org: "while_true cfg remote (org_endpoint org) 1 \<lparr>repos = [], log = sent\<rparr> =
      Some (Break, \<lparr>repos = names,
        log = log \<lparr>repos = [], log = sent\<rparr> @ map (page_request cfg (org_endpoint org)) [1..1 + int n]\<rparr>)"
    using while_true_passes_break [of remote cfg "org_endpoint org" 1 n] by blast
  obtain names' where "while_true cfg remote (user_endpoint org) 1
        \<lparr>repos = names, log = sent @ map (page_request cfg (org_endpoint org)) [1..1 + int n]\<rparr> =
      Some (Raise HTTPError, \<lparr>repos = names',
        log = log \<lparr>repos = names, log = sent @ map (page_request cfg (org_endpoint org)) [1..1 + int n]\<rparr>
          @ map (page_request cfg (user_endpoint org)) [1..1 + int m]\<rparr>)"
    using while_true_passes_http_error [of remote cfg "user_endpoint org" 1 m resp] assms a by blast
  with org show "list_js_repos cfg remote org sent =
            Some (Inl HTTPError,
                  sent @ map (page_request cfg (org_endpoint org)) [1..1 + int n]
                       @ map (page_request cfg (user_endpoint org)) [1..1 + int m])"
    by (simp add: list_js_repos_def)
next
  assume "list_js_repos cfg remote (ORG cfg) sent = Some (Inl e, reqs')"
  then show "main py_str cfg remote sent = Some (Crashed e, reqs')"
    by (simp add: main_def)
next
  assume "remote (contents_request py_str cfg repo) = Inr resp"
  then show "fst (check_workflow py_str cfg remote repo sent) = Inr False"
    using assms by (auto simp: check_workflow_def)
qed

theorem http_error_status_witness:
  "400 \<le> status_code (status 500) \<and> status_code (status 500) < 600 \<and>
   status_code (status 500) \<noteq> 404 \<and>
   passes acme_failing (page_request acme (org_endpoint ''acme'')) 1 (Suc 0) \<and>
   acme_failing (page_request acme (org_endpoint ''acme'') 2) = Inr (status 500) \<and>
   list_js_repos acme acme_failing ''acme'' [] = Some (Inl HTTPError, [org_page 1, org_page 2]) \<and>
   org_page 2 \<in> set [org_page 1, org_page 2] \<and>
   acme_failing (org_page 2) = Inr (status 500) \<and>
   main text_of acme acme_failing [] = Some (Crashed HTTPError, [org_page 1, org_page 2]) \<and>
   passes acme_mixed_failing (page_request acme (org_endpoint ''acme'')) 1 (Suc 0) \<and>
   not_found acme_mixed_failing (page_request acme (org_endpoint ''acme'') 2) \<and>
   passes acme_mixed_failing (page_request acme (user_endpoint ''acme'')) 1 0 \<and>
   acme_mixed_failing (page_request acme (user_endpoint ''acme'') 1) = Inr (status 500) \<and>
   list_js_repos acme acme_mixed_failing ''acme'' [] =
     Some (Inl HTTPError, [org_page 1, org_page 2, user_page 1]) \<and>
   always (status 500) (contents_request text_of acme (JStr ''a'')) = Inr (status 500) \<and>
   fst (check_workflow text_of acme (always (status 500)) (JStr ''a'') []) = Inr False"
proof -
  have bad: "400 \<le> status_code (status 500)" "status_code (status 500) < 600"
    "status_code (status 500) \<noteq> 404"
    by (simp_all add: status_def)
  have pages: "passes acme_failing (page_request acme (org_endpoint ''acme'')) 1 (Suc 0)"
    by (simp add: acme_failing_def passable_def examples)
  have last: "acme_failing (page_request acme (org_endpoint ''acme'') 2) = Inr (status 500)"
    by (simp add: acme_failing_def examples)
  have org: "ORG acme = ''acme''"
    by (simp add: acme_def)
  have mixed: "passes acme_mixed_failing (page_request acme (org_endpoint ''acme'')) 1 (Suc 0)"
    by (simp add: acme_mixed_failing_def passable_def examples)
  have stop: "not_found acme_mixed_failing (page_request acme (org_endpoint ''acme'') 2)"
    by (simp add: acme_mixed_failing_def examples)
  have user: "acme_mixed_failing (page_request acme (user_endpoint ''acme'') 1) = Inr (status 500)"
    by (simp add: acme_mixed_failing_def examples)
  have answer: "always (status 500) (contents_request text_of acme (JStr ''a'')) = Inr (status 500)"
    by (simp add: always_def)
  note at_acme = http_error_status [OF bad, where cfg = acme and org = "''acme''"
      and sent = "[]" and py_str = text_of and repo = "JStr ''a''" and e = HTTPError]
  have run: "list_js_repos acme acme_failing ''acme'' [] =
      Some (Inl HTTPError, [org_page 1, org_page 2])"
    using pages last at_acme [where remote = acme_failing and n = "Suc 0"]
    by (simp add: upto_rec1 org_page_def)
  have received: "Inl HTTPError = (Inl HTTPError :: error + json list)"
    using run last
      at_acme [where remote = acme_failing and res = "Inl HTTPError"
        and reqs = "[org_page 1, org_page 2]" and r = "org_page 2"]
    by (simp add: org_page_def)
  have crash: "main text_of acme acme_failing [] = Some (Crashed HTTPError, [org_page 1, org_page 2])"
    using run at_acme [where remote = acme_failing and reqs' = "[org_page 1, org_page 2]"]
    by (simp add: org)
  have mixed_run: "list_js_repos acme acme_mixed_failing ''acme'' [] =
      Some (Inl HTTPError, [org_page 1, org_page 2, user_page 1])"
    using mixed stop user at_acme [where remote = acme_mixed_failing and n = "Suc 0" and m = 0]
    by (simp add: upto_rec1 org_page_def user_page_def)
  have check: "fst (check_workflow text_of acme (always (status 500)) (JStr ''a'') []) = Inr False"
    using answer at_acme [where remote = "always (status 500)"] by simp
  show ?thesis
    using bad pages last run received crash mixed stop user mixed_run answer check
    by (simp add: org_page_def)
qed

text \<open>
  The claim C3 as it is written fails in both components: on status 500 the Checker
  returns false and raises nothing, and on status 203, which is neither 200 nor 404,
  the Enumerator reads the body and returns.
\<close>

theorem transport_error_counterexample:
  "fst (check_workflow text_of acme (always (status 500)) (JStr ''a'') []) = Inr False \<and>
   list_js_repos acme acme_other_success ''acme'' [] = Some (Inr [], [org_page 1])"
proof -
  have "iteration acme acme_other_success (org_endpoint ''acme'') 1 \<lparr>repos = [], log = []\<rparr> =
      (Exit Return, \<lparr>repos = [], log = [org_page 1]\<rparr>)"
    by (simp add: iteration_def acme_other_success_def always_def raise_for_status_def
        resp_json_def org_page_def)
  then have "list_js_repos acme acme_other_success ''acme'' [] = Some (Inr [], [org_page 1])"
    by (simp add: list_js_repos_def while_true.simps)
  then show ?thesis
    by (simp add: check_workflow_def always_def status_def)
qed

text \<open>
  C6. Whenever \<open>list_js_repos\<close> returns a list, a name is not in it when every
  descriptor of that name, among the pages received for the requests of the run, has a
  \<^verbatim>\<open>language\<close> member that is not exactly one of the two strings: one that is another
  string, one written in another case, \<^verbatim>\<open>null\<close>, or none at all.
\<close>

theorem list_js_repos_filters:
  assumes "list_js_repos cfg remote org [] = Some (Inr names, reqs)"
    and "\<forall>r \<in> set reqs. \<forall>d \<in> set (received remote r). name_of d = n \<longrightarrow> \<not> js_language d"
  shows "n \<notin> set names"
proof -
  have "justified remote names reqs"
    using assms(1) unfolding list_js_repos_def
    by (rule for_endpoints_justified) (simp add: justified_def)
  with assms(2) show ?thesis unfolding justified_def by blast
qed

theorem list_js_repos_filters_witness:
  "list_js_repos acme acme_languages ''acme'' [] = Some (Inr [JStr ''a''], [org_page 1, org_page 2]) \<and>
   received acme_languages (org_page 1) = [repo_lower, repo_a, repo_null, repo_bare] \<and>
   received acme_languages (org_page 2) = [] \<and>
   \<not> js_language repo_lower \<and> \<not> js_language repo_null \<and> \<not> js_language repo_bare \<and>
   name_of repo_lower = JStr ''lower'' \<and> name_of repo_null = JStr ''null'' \<and>
   name_of repo_bare = JStr ''bare'' \<and> name_of repo_a = JStr ''a'' \<and>
   JStr ''lower'' \<notin> set [JStr ''a''] \<and> JStr ''null'' \<notin> set [JStr ''a''] \<and>
   JStr ''bare'' \<notin> set [JStr ''a'']"
proof -
  have pages: "serves acme_languages (page_request acme (org_endpoint ''acme'')) 1
      [[repo_lower, repo_a, repo_null, repo_bare]]"
    by (simp add: acme_languages_def examples)
  have last: "acme_languages (page_request acme (org_endpoint ''acme'')
      (1 + int (length [[repo_lower, repo_a, repo_null, repo_bare]]))) = empty_page"
    by (simp add: acme_languages_def examples)
  have others: "\<not> js_language repo_lower" "\<not> js_language repo_null" "\<not> js_language repo_bare"
    "name_of repo_lower = JStr ''lower''" "name_of repo_null = JStr ''null''"
    "name_of repo_bare = JStr ''bare''" "name_of repo_a = JStr ''a''"
    by (simp_all add: repo_lower_def repo_null_def repo_bare_def repo_a_def dict_get_def)
  have names: "matching_names [repo_lower, repo_a, repo_null, repo_bare] = [JStr ''a'']"
    by (simp add: matching_names_def others) (simp add: repo_a_def)
  have run: "list_js_repos acme acme_languages ''acme'' [] =
      Some (Inr [JStr ''a''], [org_page 1, org_page 2])"
    using while_true_return [OF pages last, of "\<lparr>repos = [], log = []\<rparr>"]
    by (simp add: list_js_repos_def names upto_rec1 org_page_def)
  have first: "received acme_languages (org_page 1) = [repo_lower, repo_a, repo_null, repo_bare]"
    by (simp add: received_def acme_languages_def examples)
  have second: "received acme_languages (org_page 2) = []"
    by (simp add: received_def acme_languages_def examples)
  have excluded: "\<forall>r \<in> set [org_page 1, org_page 2]. \<forall>d \<in> set (received acme_languages r).
      name_of d = n \<longrightarrow> \<not> js_language d" if "n \<noteq> JStr ''a''" for n
    using that first second others by auto
  have "JStr ''lower'' \<notin> set [JStr ''a'']" "JStr ''null'' \<notin> set [JStr ''a'']"
    "JStr ''bare'' \<notin> set [JStr ''a'']"
    using list_js_repos_filters [OF run excluded] by simp_all
  with run first second others show ?thesis by simp
qed

text \<open>
  C7. A page answered with status 200 and an array of descriptors ends the loop, by
  \<^verbatim>\<open>return repos\<close>, exactly when the array is empty: the loop then returns after that
  one request. A page of any other size, be it 100 items or fewer, makes the loop go on:
  the loop continues with the pass for the next page number, every run of the loop that
  ends has sent the request for the next page right after the request for this one, and
  when the next page is empty the loop returns after exactly these two requests.
\<close>

theorem paging_ends_on_empty_page:
  assumes "remote (page_request cfg endpoint page) = Inr \<lparr>status_code = 200, json_body = Some (JArr items)\<rparr>"
    and "list_all descriptor items"
  shows "(items = [] \<longrightarrow>
            iteration cfg remote endpoint page s =
              (Exit Return, s\<lparr>log := log s @ [page_request cfg endpoint page]\<rparr>) \<and>
            while_true cfg remote endpoint page s =
              Some (Return, s\<lparr>log := log s @ [page_request cfg endpoint page]\<rparr>)) \<and>
         (items \<noteq> [] \<longrightarrow>
            (let s' = \<lparr>repos = repos s @ matching_names items,
                       log = log s @ [page_request cfg endpoint page]\<rparr>
             in iteration cfg remote endpoint page s = (Next, s') \<and>
                while_true cfg remote endpoint page s = while_true cfg remote endpoint (page + 1) s' \<and>
                log (snd (iteration cfg remote endpoint (page + 1) s')) =
                  log s @ [page_request cfg endpoint page, page_request cfg endpoint (page + 1)] \<and>
                while_true cfg remote endpoint page s =
                  (case iteration cfg remote endpoint (page + 1) s' of
                     (Next, s'') \<Rightarrow> while_true cfg remote endpoint (page + 1 + 1) s''
                   | (Exit x, s'') \<Rightarrow> Some (x, s'')) \<and>
                (\<forall>x final. while_true cfg remote endpoint page s = Some (x, final) \<longrightarrow>
                   (\<exists>rest. log final =
                      log s @ page_request cfg endpoint page #
                        page_request cfg endpoint (page + 1) # rest)) \<and>
                (remote (page_request cfg endpoint (page + 1)) = empty_page \<longrightarrow>
                   while_true cfg remote endpoint page s =
                     Some (Return,
                           \<lparr>repos = repos s @ matching_names items,
                            log = log s @ [page_request cfg endpoint page,
                                           page_request cfg endpoint (page + 1)]\<rparr>))))"
proof (intro conjI impI)
  assume "items = []"
  with assms(1) show first: "iteration cfg remote endpoint page s =
      (Exit Return, s\<lparr>log := log s @ [page_request cfg endpoint page]\<rparr>)"
    by (simp add: iteration_empty empty_page_def)
  then show "while_true cfg remote endpoint page s =
      Some (Return, s\<lparr>log := log s @ [page_request cfg endpoint page]\<rparr>)"
    by (subst while_true.simps) simp
next
  assume "items \<noteq> []"
  define s' where "s' = \<lparr>repos = repos s @ matching_names items,
                       log = log s @ [page_request cfg endpoint page]\<rparr>"
  from \<open>items \<noteq> []\<close> assms have step: "iteration cfg remote endpoint page s = (Next, s')"
    by (simp add: iteration_page s'_def)
  then have loop: "while_true cfg remote endpoint page s = while_true cfg remote endpoint (page + 1) s'"
    by (subst while_true.simps) simp
  have sent: "log (snd (iteration cfg remote endpoint (page + 1) s')) =
      log s @ [page_request cfg endpoint page, page_request cfg endpoint (page + 1)]"
    by (simp add: iteration_log s'_def)
  have unfolded: "while_true cfg remote endpoint page s =
                  (case iteration cfg remote endpoint (page + 1) s' of
                     (Next, s'') \<Rightarrow> while_true cfg remote endpoint (page + 1 + 1) s''
                   | (Exit x, s'') \<Rightarrow> Some (x, s''))"
    unfolding loop by (rule while_true.simps)
  have ended: "\<exists>rest. log final =
      log s @ page_request cfg endpoint page # page_request cfg endpoint (page + 1) # rest"
    if "while_true cfg remote endpoint page s = Some (x, final)" for x final
  proof -
    from that loop have "while_true cfg remote endpoint (page + 1) s' = Some (x, final)"
      by simp
    then obtain rest where "log (snd (x, final)) = log s' @ page_request cfg endpoint (page + 1) # rest"
      using while_true_log by blast
    then show ?thesis by (simp add: s'_def)
  qed
  have last: "while_true cfg remote endpoint page s =
      Some (Return, \<lparr>repos = repos s @ matching_names items,
                     log = log s @ [page_request cfg endpoint page,
                                    page_request cfg endpoint (page + 1)]\<rparr>)"
    if "remote (page_request cfg endpoint (page + 1)) = empty_page"
    unfolding loop using that
    by (subst while_true.simps) (simp add: iteration_empty s'_def)
  from step loop sent unfolded ended last
  show "let s' = \<lparr>repos = repos s @ matching_names items,
                   log = log s @ [page_request cfg endpoint page]\<rparr>
        in iteration cfg remote endpoint page s = (Next, s') \<and>
           while_true cfg remote endpoint page s = while_true cfg remote endpoint (page + 1) s' \<and>
           log (snd (iteration cfg remote endpoint (page + 1) s')) =
             log s @ [page_request cfg endpoint page, page_request cfg endpoint (page + 1)] \<and>
           while_true cfg remote endpoint page s =
             (case iteration cfg remote endpoint (page + 1) s' of
                (Next, s'') \<Rightarrow> while_true cfg remote endpoint (page + 1 + 1) s''
              | (Exit x, s'') \<Rightarrow> Some (x, s'')) \<and>
           (\<forall>x final. while_true cfg remote endpoint page s = Some (x, final) \<longrightarrow>
              (\<exists>rest. log final =
                 log s @ page_request cfg endpoint page #
                   page_request cfg endpoint (page + 1) # rest)) \<and>
           (remote (page_request cfg endpoint (page + 1)) = empty_page \<longrightarrow>
              while_true cfg remote endpoint page s =
                Some (Return,
                      \<lparr>repos = repos s @ matching_names items,
                       log = log s @ [page_request cfg endpoint page,
                                      page_request cfg endpoint (page + 1)]\<rparr>))"
    unfolding Let_def s'_def by blast
qed

theorem paging_ends_on_empty_page_witness:
  "acme_full_page (page_request acme (org_endpoint ''acme'') 1) =
     Inr \<lparr>status_code = 200, json_body = Some (JArr (replicate 100 repo_a))\<rparr> \<and>
   list_all descriptor (replicate 100 repo_a) \<and>
   length (replicate 100 repo_a) = 100 \<and>
   iteration acme acme_full_page (org_endpoint ''acme'') 1 \<lparr>repos = [], log = []\<rparr> =
     (Next, \<lparr>repos = replicate 100 (JStr ''a''), log = [org_page 1]\<rparr>) \<and>
   log (snd (iteration acme acme_full_page (org_endpoint ''acme'') 2
               \<lparr>repos = replicate 100 (JStr ''a''), log = [org_page 1]\<rparr>)) =
     [org_page 1, org_page 2] \<and>
   acme_full_page (page_request acme (org_endpoint ''acme'') 2) = empty_page \<and>
   while_true acme acme_full_page (org_endpoint ''acme'') 1 \<lparr>repos = [], log = []\<rparr> =
     Some (Return, \<lparr>repos = replicate 100 (JStr ''a''), log = [org_page 1, org_page 2]\<rparr>) \<and>
   acme_org (page_request acme (org_endpoint ''acme'') 1) =
     Inr \<lparr>status_code = 200, json_body = Some (JArr [repo_a, repo_b])\<rparr> \<and>
   list_all descriptor [repo_a, repo_b] \<and>
   iteration acme acme_org (org_endpoint ''acme'') 1 \<lparr>repos = [], log = []\<rparr> =
     (Next, \<lparr>repos = [JStr ''a''], log = [org_page 1]\<rparr>) \<and>
   acme_org (page_request acme (org_endpoint ''acme'') 2) =
     Inr \<lparr>status_code = 200, json_body = Some (JArr [])\<rparr> \<and>
   while_true acme acme_org (org_endpoint ''acme'') 1 \<lparr>repos = [], log = []\<rparr> =
     Some (Return, \<lparr>repos = [JStr ''a''], log = [org_page 1, org_page 2]\<rparr>) \<and>
   iteration acme acme_org (org_endpoint ''acme'') 2 \<lparr>repos = [JStr ''a''], log = [org_page 1]\<rparr> =
     (Exit Return, \<lparr>repos = [JStr ''a''], log = [org_page 1, org_page 2]\<rparr>) \<and>
   while_true acme acme_org (org_endpoint ''acme'') 2 \<lparr>repos = [JStr ''a''], log = [org_page 1]\<rparr> =
     Some (Return, \<lparr>repos = [JStr ''a''], log = [org_page 1, org_page 2]\<rparr>)"
proof -
  have full: "acme_full_page (page_request acme (org_endpoint ''acme'') 1) =
     Inr \<lparr>status_code = 200, json_body = Some (JArr (replicate 100 repo_a))\<rparr>"
    by (simp add: acme_full_page_def examples)
  have after: "acme_full_page (page_request acme (org_endpoint ''acme'') 2) = empty_page"
    by (simp add: acme_full_page_def examples)
  have descriptors: "list_all descriptor (replicate 100 repo_a)"
    by (simp add: list_all_iff repo_a_def)
  have names: "matching_names (replicate 100 repo_a) = replicate 100 (JStr ''a'')"
    "matching_names [repo_a, repo_b] = [JStr ''a'']"
    by (simp_all add: matching_names_def repo_a_def repo_b_def dict_get_def)
  have small: "acme_org (page_request acme (org_endpoint ''acme'') 1) =
     Inr \<lparr>status_code = 200, json_body = Some (JArr [repo_a, repo_b])\<rparr>"
    by (simp add: acme_org_def examples)
  have two: "list_all descriptor [repo_a, repo_b]"
    by (simp add: repo_a_def repo_b_def)
  have none: "acme_org (page_request acme (org_endpoint ''acme'') 2) =
     Inr \<lparr>status_code = 200, json_body = Some (JArr [])\<rparr>"
    by (simp add: acme_org_def examples)
  have hundred: "replicate 100 repo_a \<noteq> []"
    by simp
  note big = paging_ends_on_empty_page [of acme_full_page acme "org_endpoint ''acme''" 1
        "replicate 100 repo_a" "\<lparr>repos = [], log = []\<rparr>", OF full descriptors,
        unfolded Let_def, THEN conjunct2, rule_format, OF hundred]
  note few = paging_ends_on_empty_page [of acme_org acme "org_endpoint ''acme''" 1
        "[repo_a, repo_b]" "\<lparr>repos = [], log = []\<rparr>", OF small two,
        unfolded Let_def, THEN conjunct2, rule_format]
  note empty = paging_ends_on_empty_page [of acme_org acme "org_endpoint ''acme''" 2
        "[]" "\<lparr>repos = [JStr ''a''], log = [org_page 1]\<rparr>", OF none,
        THEN conjunct1, rule_format]
  have b1: "iteration acme acme_full_page (org_endpoint ''acme'') 1 \<lparr>repos = [], log = []\<rparr> =
     (Next, \<lparr>repos = replicate 100 (JStr ''a''), log = [org_page 1]\<rparr>)"
    using big by (simp add: names org_page_def)
  have b2: "log (snd (iteration acme acme_full_page (org_endpoint ''acme'') 2
               \<lparr>repos = replicate 100 (JStr ''a''), log = [org_page 1]\<rparr>)) =
     [org_page 1, org_page 2]"
    using big by (simp add: names org_page_def)
  have b3: "while_true acme acme_full_page (org_endpoint ''acme'') 1 \<lparr>repos = [], log = []\<rparr> =
     Some (Return, \<lparr>repos = replicate 100 (JStr ''a''), log = [org_page 1, org_page 2]\<rparr>)"
    using big after by (auto simp add: names org_page_def)
  have f1: "iteration acme acme_org (org_endpoint ''acme'') 1 \<lparr>repos = [], log = []\<rparr> =
     (Next, \<lparr>repos = [JStr ''a''], log = [org_page 1]\<rparr>)"
    using few by (simp add: names org_page_def)
  have f3: "while_true acme acme_org (org_endpoint ''acme'') 1 \<lparr>repos = [], log = []\<rparr> =
     Some (Return, \<lparr>repos = [JStr ''a''], log = [org_page 1, org_page 2]\<rparr>)"
    using few none by (auto simp add: names org_page_def empty_page_def)
  have e1: "iteration acme acme_org (org_endpoint ''acme'') 2 \<lparr>repos = [JStr ''a''], log = [org_page 1]\<rparr> =
     (Exit Return, \<lparr>repos = [JStr ''a''], log = [org_page 1, org_page 2]\<rparr>)"
    "while_true acme acme_org (org_endpoint ''acme'') 2 \<lparr>repos = [JStr ''a''], log = [org_page 1]\<rparr> =
     Some (Return, \<lparr>repos = [JStr ''a''], log = [org_page 1, org_page 2]\<rparr>)"
    using empty by (simp_all add: org_page_def)
  show ?thesis
    using full descriptors after b1 b2 b3 small two f1 none f3 e1 by simp
qed

text \<open>
  C8. When the contents endpoint answers two successive calls of \<open>check_workflow\<close> for
  the same repository with responses of the same status, both calls return the same
  truth value.
\<close>

theorem check_workflow_repeatable:
  assumes "remote1 (contents_request py_str cfg repo) = Inr resp1"
    and "remote2 (contents_request py_str cfg repo) = Inr resp2"
    and "status_code resp1 = status_code resp2"
  shows "fst (check_workflow py_str cfg remote2 repo (snd (check_workflow py_str cfg remote1 repo sent))) =
         fst (check_workflow py_str cfg remote1 repo sent)"
  using assms by (simp add: check_workflow_def Let_def)

theorem check_workflow_repeatable_witness:
  "always (ok []) (contents_request text_of acme (JStr ''a'')) = Inr (ok []) \<and>
   always (status 200) (contents_request text_of acme (JStr ''a'')) = Inr (status 200) \<and>
   status_code (ok []) = status_code (status 200) \<and>
   fst (check_workflow text_of acme (always (ok [])) (JStr ''a'') []) = Inr True \<and>
   fst (check_workflow text_of acme (always (status 200)) (JStr ''a'')
          (snd (check_workflow text_of acme (always (ok [])) (JStr ''a'') []))) = Inr True"
proof -
  have first: "always (ok []) (contents_request text_of acme (JStr ''a'')) = Inr (ok [])"
    by (simp add: always_def)
  have second: "always (status 200) (contents_request text_of acme (JStr ''a'')) = Inr (status 200)"
    by (simp add: always_def)
  have same: "status_code (ok []) = status_code (status 200)"
    by (simp add: ok_def status_def)
  have "fst (check_workflow text_of acme (always (ok [])) (JStr ''a'') []) = Inr True"
    by (simp add: check_workflow_def always_def ok_def)
  with first second same
    check_workflow_repeatable [of "always (ok [])" text_of acme "JStr ''a''" "ok []"
      "always (status 200)" "status 200" "[]"]
  show ?thesis by simp
qed

text \<open>
  C9. When the command line has no account identifier, or when the environment has no
  \<^verbatim>\<open>GITHUB_TOKEN\<close>, the script prints one line, the usage line in the first case and
  the line about the token otherwise, and exits with status 1 having sent no request.
\<close>

theorem script_configuration_error:
  assumes "length argv \<le> 1 \<or> env ''GITHUB_TOKEN'' = None"
  shows "script py_str argv env remote =
           Some (Exited (if length argv \<le> 1 \<or> argv ! 1 = [] then usage_message else token_message) 1, [])"
  using assms by (auto simp: script_def configuration_def)

theorem script_configuration_error_witness:
  "length [''monitor_adoption.py''] \<le> 1 \<and>
   script text_of [''monitor_adoption.py''] Map.empty acme_org = Some (Exited usage_message 1, []) \<and>
   (Map.empty :: string \<rightharpoonup> string) ''GITHUB_TOKEN'' = None \<and>
   script text_of [''monitor_adoption.py'', ''acme''] Map.empty acme_org =
     Some (Exited token_message 1, [])"
  using script_configuration_error [of "[''monitor_adoption.py'']" Map.empty text_of acme_org]
    script_configuration_error [of "[''monitor_adoption.py'', ''acme'']" Map.empty text_of acme_org]
  by simp

end
